theory Spec2Isabelle
  imports Complex_Main "HOL-Library.Sublist"
begin

section \<open>JavaScript numbers and strings\<close>

text \<open>
  A JavaScript \<^verbatim>\<open>number\<close> is modelled as an exact real or \<open>NaN\<close>. Rounding of
  IEEE doubles, the two infinities and the sign of zero are not modelled; every number the
  pipeline computes from whole seconds below \<open>2^53\<close> is exact in both readings.
  Comparisons with \<open>NaN\<close> are false and arithmetic on \<open>NaN\<close> gives \<open>NaN\<close>, as in
  JavaScript.
\<close>

datatype jsnum = NaN | Num real

fun js_add :: "jsnum \<Rightarrow> jsnum \<Rightarrow> jsnum" where
  "js_add (Num a) (Num b) = Num (a + b)"
| "js_add _ _ = NaN"


fun js_mul :: "jsnum \<Rightarrow> jsnum \<Rightarrow> jsnum" where
  "js_mul (Num a) (Num b) = Num (a * b)"
| "js_mul _ _ = NaN"


fun js_min :: "jsnum \<Rightarrow> jsnum \<Rightarrow> jsnum" where
  "js_min (Num a) (Num b) = Num (min a b)"
| "js_min _ _ = NaN"



text \<open>The remainder operator \<^verbatim>\<open>%\<close>: the result takes the sign of the dividend.\<close>

definition js_rem :: "real \<Rightarrow> real \<Rightarrow> real" where
  "js_rem x y = (let q = x / y in x - y * of_int (if q < 0 then \<lceil>q\<rceil> else \<lfloor>q\<rfloor>))"

text \<open>
  \<^verbatim>\<open>toString()\<close> of an integer-valued number: decimal digits, with a minus sign
  below zero (exponent notation, which JavaScript uses from \<open>10^21\<close> on, is not modelled).
\<close>

definition digit_char :: "nat \<Rightarrow> char" where
  "digit_char d = ''0123456789'' ! d"

fun toString_nat :: "nat \<Rightarrow> string" where
  "toString_nat n =
     (if n < 10 then [digit_char n] else toString_nat (n div 10) @ [digit_char (n mod 10)])"

definition toString_int :: "int \<Rightarrow> string" where
  "toString_int i = (if i < 0 then CHR ''-'' # toString_nat (nat (- i)) else toString_nat (nat i))"

text \<open>\<^verbatim>\<open>s.padStart(2, '0')\<close>.\<close>

definition padStart2 :: "string \<Rightarrow> string" where
  "padStart2 s = replicate (2 - length s) CHR ''0'' @ s"

text \<open>
  \<^verbatim>\<open>Number(s)\<close> on a string. The model reads a string of decimal digits as its value and
  the empty string as 0, as JavaScript does, and every other string as \<open>NaN\<close>.
  JavaScript also reads signed, fractional, exponent, hexadecimal and blank-padded
  literals as numbers; these lie outside the model, and the theorems that depend on parsed
  values are stated for timestamps made of digits (\<open>wf_timestamp\<close> below).
\<close>

definition is_digit :: "char \<Rightarrow> bool" where
  "is_digit c = (c \<in> set ''0123456789'')"

definition digit_val :: "char \<Rightarrow> nat" where
  "digit_val c = length (takeWhile (\<lambda>d. d \<noteq> c) ''0123456789'')"

definition digits_val :: "string \<Rightarrow> nat" where
  "digits_val s = foldl (\<lambda>a c. 10 * a + digit_val c) 0 s"

definition Number :: "string \<Rightarrow> jsnum" where
  "Number s = (if list_all is_digit s then Num (of_nat (digits_val s)) else NaN)"

text \<open>\<^verbatim>\<open>s.split(sep)\<close> for a one-character separator; the result is never empty.\<close>

fun split :: "char \<Rightarrow> string \<Rightarrow> string list" where
  "split sep [] = [[]]"
| "split sep (c # cs) =
     (if c = sep then [] # split sep cs
      else (case split sep cs of [] \<Rightarrow> [[c]] | p # ps \<Rightarrow> (c # p) # ps))"

text \<open>\<^verbatim>\<open>s.includes(p)\<close>.\<close>

fun js_includes :: "string \<Rightarrow> string \<Rightarrow> bool" where
  "js_includes [] p = (p = [])"
| "js_includes (c # cs) p = (prefix p (c # cs) \<or> js_includes cs p)"

section \<open>Time utilities (src/lib/utils/audio.ts)\<close>

definition CHUNK_DURATION :: real where
  "CHUNK_DURATION = 120"

definition CHUNK_OVERLAP :: real where
  "CHUNK_OVERLAP = 60"

text \<open>
  \<^verbatim>\<open>formatTime\<close>: \<open>Math.floor(seconds / 60)\<close> and \<open>Math.floor(seconds % 60)\<close>, each
  printed and padded to two characters. \<open>NaN\<close> prints as \<^verbatim>\<open>NaN:NaN\<close>.
\<close>

fun formatTime :: "jsnum \<Rightarrow> string" where
  "formatTime NaN = ''NaN:NaN''"
| "formatTime (Num seconds) =
     (let minutes = \<lfloor>seconds / 60\<rfloor>;
          remainingSeconds = \<lfloor>js_rem seconds 60\<rfloor>
      in padStart2 (toString_int minutes) @ '':'' @ padStart2 (toString_int remainingSeconds))"

text \<open>
  \<^verbatim>\<open>parseTimeToSeconds\<close>: split at the colons, read each part with \<open>Number\<close>, and
  take the first two. With no colon the second component is \<^verbatim>\<open>undefined\<close> and the
  sum is \<open>NaN\<close>.
\<close>

definition parseTimeToSeconds :: "string \<Rightarrow> jsnum" where
  "parseTimeToSeconds ts =
     (case map Number (split CHR '':'' ts) of
        minutes # seconds # _ \<Rightarrow> js_add (js_mul minutes (Num 60)) seconds
      | _ \<Rightarrow> NaN)"



record TranscriptEntry =
  timestamp :: string
  speaker :: string
  "text" :: string

section \<open>Transcript merger (src/lib/utils/audio.ts)\<close>

text \<open>
  The speaker map is a JavaScript \<^verbatim>\<open>Map\<close>, kept here as an association list in
  insertion order together with the counter \<open>currentSpeakerIndex\<close>.
\<close>

type_synonym speaker_map = "(string \<times> string) list"

definition normalize_entry :: "speaker_map \<times> nat \<Rightarrow> TranscriptEntry \<Rightarrow> speaker_map \<times> nat" where
  "normalize_entry st entry =
     (case st of (speakerMap, currentSpeakerIndex) \<Rightarrow>
        if map_of speakerMap (speaker entry) = None
        then (speakerMap @ [(speaker entry, ''Speaker '' @ toString_nat currentSpeakerIndex)],
              currentSpeakerIndex + 1)
        else (speakerMap, currentSpeakerIndex))"

definition normalize_speakers :: "TranscriptEntry list list \<Rightarrow> speaker_map \<times> nat" where
  "normalize_speakers chunks = foldl (foldl normalize_entry) ([], 1) chunks"











text \<open>The labels in first-seen order: each label once, at its first occurrence.\<close>

fun first_seen :: "string list \<Rightarrow> string list" where
  "first_seen [] = []"
| "first_seen (x # xs) = x # filter (\<lambda>y. y \<noteq> x) (first_seen xs)"

section \<open>Segment processor (\<^verbatim>\<open>processChunk\<close>)\<close>

text \<open>
  A thrown value, with the optional \<open>message\<close> that \<^verbatim>\<open>error.message?.includes\<close>
  looks at.
\<close>

record js_error =
  message :: "string option"

definition message_includes :: "js_error \<Rightarrow> string \<Rightarrow> bool" where
  "message_includes err p = (case message err of None \<Rightarrow> False | Some m \<Rightarrow> js_includes m p)"

definition adjust_entry :: "real \<Rightarrow> real \<Rightarrow> TranscriptEntry \<Rightarrow> TranscriptEntry" where
  "adjust_entry startTime chunkDuration entry =
     (let entryTime = parseTimeToSeconds (timestamp entry);
          adjustedTime = js_min (js_add entryTime (Num startTime)) (Num (startTime + chunkDuration))
      in entry\<lparr>timestamp := formatTime adjustedTime\<rparr>)"

definition synthetic_entry :: "real \<Rightarrow> string \<Rightarrow> TranscriptEntry" where
  "synthetic_entry startTime msg =
     \<lparr>timestamp = formatTime (Num startTime), speaker = ''System'', text = msg\<rparr>"

definition safety_message :: string where
  "safety_message = ''This segment was skipped due to content safety filters. The transcription will continue with the next segment.''"

definition rate_limit_message :: string where
  "rate_limit_message = ''Rate limit reached. Waiting before retrying.''"

text \<open>
  \<open>attempt\<close> is what the body of the \<^verbatim>\<open>try\<close> block reaches before the entries are
  mapped: the array read by \<^verbatim>\<open>JSON.parse\<close> from the backend's answer, or the value
  thrown by extraction, upload, polling, generation or parsing. The
  \<^verbatim>\<open>finally\<close> block only releases the temporary file.
\<close>

definition processChunk :: "real \<Rightarrow> real \<Rightarrow> js_error + TranscriptEntry list \<Rightarrow> js_error + TranscriptEntry list" where
  "processChunk startTime chunkDuration attempt =
     (case attempt of
        Inr parsedTranscript \<Rightarrow> Inr (map (adjust_entry startTime chunkDuration) parsedTranscript)
      | Inl err \<Rightarrow>
          if message_includes err ''SAFETY'' \<or> message_includes err ''429''
          then Inr [synthetic_entry startTime
                      (if message_includes err ''SAFETY'' then safety_message else rate_limit_message)]
          else Inl err)"

section \<open>Pipeline orchestrator (\<^verbatim>\<open>POST\<close>)\<close>

record window =
  w_start :: real
  w_duration :: real

text \<open>The window the loop computes at counter \<open>time\<close>.\<close>

definition window_at :: "real \<Rightarrow> real \<Rightarrow> window" where
  "window_at duration time =
     (let chunkStartTime = max 0 (time - CHUNK_OVERLAP);
          chunkDuration = min (CHUNK_DURATION + CHUNK_OVERLAP) (duration - chunkStartTime)
      in \<lparr>w_start = chunkStartTime, w_duration = chunkDuration\<rparr>)"

text \<open>
  The windows of \<^verbatim>\<open>for (time = initialStartTime; time < duration; time += CHUNK_DURATION)\<close>,
  in order.
\<close>

function plan :: "real \<Rightarrow> real \<Rightarrow> window list" where
  "plan duration time =
     (if time < duration then window_at duration time # plan duration (time + CHUNK_DURATION) else [])"
  by pat_completeness auto
termination
  by (relation "measure (\<lambda>(duration, time). nat \<lceil>duration - time\<rceil>)")
     (auto simp: CHUNK_DURATION_def, linarith)

datatype status = StatusSuccess | StatusError

text \<open>
  The record written to the stream. \<open>processedTimestamp\<close>, the wall-clock time of
  emission, is left out.
\<close>

record ProgressRecord =
  startTime :: real
  endTime :: real
  totalDuration :: real
  status :: status
  retryCount :: nat
  retryAfter :: "real option"
  entries :: "TranscriptEntry list"

datatype event = Enqueue ProgressRecord | Delay real | Close

definition first_is_System :: "TranscriptEntry list \<Rightarrow> bool" where
  "first_is_System chunkTranscript =
     (case chunkTranscript of [] \<Rightarrow> False | e # _ \<Rightarrow> speaker e = ''System'')"

definition chunkData :: "real \<Rightarrow> window \<Rightarrow> TranscriptEntry list \<Rightarrow> ProgressRecord" where
  "chunkData duration w chunkTranscript =
     \<lparr>startTime = w_start w, endTime = w_start w + w_duration w, totalDuration = duration,
      status = (if first_is_System chunkTranscript then StatusError else StatusSuccess),
      retryCount = 0, retryAfter = None, entries = chunkTranscript\<rparr>"

definition isRateLimit :: "js_error \<Rightarrow> bool" where
  "isRateLimit err = (message_includes err ''429'' \<or> message_includes err ''Too Many Requests'')"

definition errorData :: "real \<Rightarrow> window \<Rightarrow> js_error \<Rightarrow> ProgressRecord" where
  "errorData duration w err =
     (let errorDelay = (if isRateLimit err then 15000 else 5000)
      in \<lparr>startTime = w_start w, endTime = w_start w + w_duration w, totalDuration = duration,
          status = StatusError, retryCount = 0, retryAfter = Some errorDelay,
          entries = [synthetic_entry (w_start w)
                       (if isRateLimit err then ''Rate limit reached. Waiting before continuing.''
                        else ''Error processing segment. Will retry shortly.'')]\<rparr>)"

text \<open>
  One pass of the loop body: the record enqueued and the delay awaited. \<open>attempt\<close> is
  the outcome of the backend for this window (see \<open>processChunk\<close>).
\<close>

definition process_window :: "real \<Rightarrow> window \<Rightarrow> js_error + TranscriptEntry list \<Rightarrow> event list" where
  "process_window duration w attempt =
     (case processChunk (w_start w) (w_duration w) attempt of
        Inr chunkTranscript \<Rightarrow>
          [Enqueue (chunkData duration w chunkTranscript),
           Delay (if first_is_System chunkTranscript then 10000 else 3000)]
      | Inl err \<Rightarrow>
          [Enqueue (errorData duration w err),
           Delay (if isRateLimit err then 15000 else 5000)])"

text \<open>
  The loop of \<^verbatim>\<open>POST\<close>, as the sequence of stream events it causes. \<open>backend\<close>
  gives the outcome of the backend at each value of the loop counter.
\<close>

function POST_loop :: "(real \<Rightarrow> js_error + TranscriptEntry list) \<Rightarrow> real \<Rightarrow> real \<Rightarrow> event list" where
  "POST_loop backend duration time =
     (if time < duration
      then process_window duration (window_at duration time) (backend time)
           @ POST_loop backend duration (time + CHUNK_DURATION)
      else [])"
  by pat_completeness auto
termination
  by (relation "measure (\<lambda>(backend, duration, time). nat \<lceil>duration - time\<rceil>)")
     (auto simp: CHUNK_DURATION_def, linarith)

text \<open>The stream of one run: the loop, then \<^verbatim>\<open>controller.close()\<close>.\<close>

definition POST_stream :: "(real \<Rightarrow> js_error + TranscriptEntry list) \<Rightarrow> real \<Rightarrow> real \<Rightarrow> event list" where
  "POST_stream backend duration initialStartTime = POST_loop backend duration initialStartTime @ [Close]"

fun records_of :: "event list \<Rightarrow> ProgressRecord list" where
  "records_of [] = []"
| "records_of (Enqueue r # evs) = r # records_of evs"
| "records_of (_ # evs) = records_of evs"

section \<open>Client reassembly (the page's \<^verbatim>\<open>handleSubmit\<close>)\<close>

record client_state =
  transcriptArray :: "TranscriptEntry list"
  processedDuration :: real
  lastProcessedTimestamp :: string
  duration :: real






text \<open>
  A sample backend for a 300-second file: the first window answers with one entry, the
  second fails with an error that is not contained, the third answers with nothing.
\<close>

definition sample_backend :: "real \<Rightarrow> js_error + TranscriptEntry list" where
  "sample_backend time =
     (if time = 0 then Inr [\<lparr>timestamp = ''00:05'', speaker = ''Speaker 1'', text = ''Hello.''\<rparr>]
      else if time = 120 then Inl \<lparr>message = Some ''Chunk processing failed''\<rparr>
      else Inr [])"







section \<open>Properties of the time utilities\<close>

declare toString_nat.simps [simp del]

lemma digit_cases: "d < 10 \<Longrightarrow> d = 0 \<or> d = 1 \<or> d = 2 \<or> d = 3 \<or> d = 4 \<or> d = 5 \<or> d = 6 \<or> d = 7 \<or> d = 8 \<or> d = (9::nat)"
  by arith

lemma is_digit_digit_char: "d < 10 \<Longrightarrow> is_digit (digit_char d)"
  using digit_cases [of d] by (auto simp: is_digit_def digit_char_def)

lemma digit_val_digit_char: "d < 10 \<Longrightarrow> digit_val (digit_char d) = d"
  using digit_cases [of d] by (auto simp: digit_val_def digit_char_def)

lemma not_digit_colon: "\<not> is_digit CHR '':''"
  by (simp add: is_digit_def)

lemma digits_val_snoc: "digits_val (xs @ [c]) = 10 * digits_val xs + digit_val c"
  by (simp add: digits_val_def)

lemma digits_toString_nat: "list_all is_digit (toString_nat n) \<and> digits_val (toString_nat n) = n"
proof (induction n rule: toString_nat.induct)
  case (1 n)
  show ?case
  proof (cases "n < 10")
    case True
    then show ?thesis
      by (simp add: toString_nat.simps [of n] is_digit_digit_char digit_val_digit_char digits_val_def)
  next
    case False
    with 1 show ?thesis
      by (simp add: toString_nat.simps [of n] is_digit_digit_char digit_val_digit_char digits_val_snoc)
  qed
qed

lemma digits_val_zeros: "digits_val (replicate k CHR ''0'' @ s) = digits_val s"
proof -
  have "foldl (\<lambda>a c. 10 * a + digit_val c) 0 (replicate k CHR ''0'') = 0"
    by (induction k) (simp_all add: digit_val_def)
  then show ?thesis by (simp add: digits_val_def)
qed

lemma is_digit_zeros: "list_all is_digit (replicate k CHR ''0'')"
  by (induction k) (simp_all add: is_digit_def)

lemma digits_padStart2:
  "list_all is_digit s \<Longrightarrow> list_all is_digit (padStart2 s) \<and> digits_val (padStart2 s) = digits_val s"
  by (simp add: padStart2_def digits_val_zeros is_digit_zeros)

lemma split_no_sep: "sep \<notin> set s \<Longrightarrow> split sep s = [s]"
  by (induction s) auto

lemma split_at_sep: "sep \<notin> set a \<Longrightarrow> split sep (a @ sep # b) = a # split sep b"
  by (induction a) auto

lemma digits_no_colon: "list_all is_digit s \<Longrightarrow> CHR '':'' \<notin> set s"
  using not_digit_colon by (auto simp: list_all_iff)

lemma parse_digits:
  assumes "list_all is_digit a" "list_all is_digit b"
  shows "parseTimeToSeconds (a @ '':'' @ b) = Num (of_nat (digits_val a * 60 + digits_val b))"
  using assms
  by (simp add: parseTimeToSeconds_def split_at_sep split_no_sep digits_no_colon Number_def)

lemma js_rem_nonneg: "0 \<le> x \<Longrightarrow> js_rem x 60 = x - 60 * of_int \<lfloor>x / 60\<rfloor>"
  by (simp add: js_rem_def Let_def)

lemma floor_rem_nonneg: "0 \<le> x \<Longrightarrow> \<lfloor>js_rem x 60\<rfloor> = \<lfloor>x\<rfloor> - 60 * \<lfloor>x / 60\<rfloor>"
proof -
  assume "0 \<le> x"
  then have "js_rem x 60 = x - of_int (60 * \<lfloor>x / 60\<rfloor>)"
    by (simp add: js_rem_nonneg)
  then show ?thesis
    by (simp only: floor_diff_of_int)
qed

lemma floor_div_60: "0 \<le> (x::real) \<Longrightarrow> \<lfloor>x / 60\<rfloor> = \<lfloor>x\<rfloor> div 60"
  using floor_divide_real_eq_div [of 60 x] by simp

lemma formatTime_nonneg:
  assumes "0 \<le> x"
  shows "formatTime (Num x) =
         padStart2 (toString_nat (nat \<lfloor>x\<rfloor> div 60)) @ '':'' @ padStart2 (toString_nat (nat \<lfloor>x\<rfloor> mod 60))"
proof -
  have f: "0 \<le> \<lfloor>x\<rfloor>" using assms by simp
  have m: "\<lfloor>x / 60\<rfloor> = \<lfloor>x\<rfloor> div 60" using assms by (rule floor_div_60)
  have r: "\<lfloor>js_rem x 60\<rfloor> = \<lfloor>x\<rfloor> mod 60"
    using floor_rem_nonneg [OF assms] m by (simp add: minus_mult_div_eq_mod)
  have m0: "\<not> \<lfloor>x\<rfloor> div 60 < 0" using f by (simp add: pos_imp_zdiv_nonneg_iff not_less)
  have r0: "\<not> \<lfloor>x\<rfloor> mod 60 < 0" by (simp add: not_less)
  have nm: "nat (\<lfloor>x\<rfloor> div 60) = nat \<lfloor>x\<rfloor> div 60" by (simp add: nat_div_distrib)
  have nr: "nat (\<lfloor>x\<rfloor> mod 60) = nat \<lfloor>x\<rfloor> mod 60" using f by (simp add: nat_mod_distrib)
  show ?thesis
    using m0 r0 by (simp add: m r toString_int_def nm nr Let_def)
qed

lemma parse_formatTime:
  assumes "0 \<le> x"
  shows "parseTimeToSeconds (formatTime (Num x)) = Num (of_int \<lfloor>x\<rfloor>)"
proof -
  let ?n = "nat \<lfloor>x\<rfloor>"
  have "parseTimeToSeconds (formatTime (Num x)) = Num (of_nat (?n div 60 * 60 + ?n mod 60))"
    unfolding formatTime_nonneg [OF assms] append_Cons append_Nil
    using parse_digits [of "padStart2 (toString_nat (?n div 60))" "padStart2 (toString_nat (?n mod 60))"]
      digits_toString_nat digits_padStart2 by simp
  also have "?n div 60 * 60 + ?n mod 60 = ?n" by simp
  finally show ?thesis using assms by simp
qed

text \<open>
  Claim C10. Formatting whole seconds and parsing the result gives the seconds back, for
  every natural number of seconds (the minutes field simply grows past two digits). For a
  non-negative number with a fraction, \<open>formatTime\<close> prints the floors of the minute
  and second components, which is what it prints for the number rounded down; parsing
  the result gives the floor.
\<close>

theorem formatTime_parse_roundtrip:
  "parseTimeToSeconds (formatTime (Num (of_nat s))) = Num (of_nat s) \<and>
   (0 \<le> x \<longrightarrow>
      formatTime (Num x) = formatTime (Num (of_int \<lfloor>x\<rfloor>)) \<and>
      formatTime (Num x) =
        padStart2 (toString_int \<lfloor>x / 60\<rfloor>) @ '':'' @ padStart2 (toString_int \<lfloor>js_rem x 60\<rfloor>) \<and>
      parseTimeToSeconds (formatTime (Num x)) = Num (of_int \<lfloor>x\<rfloor>))"
proof -
  have a: "parseTimeToSeconds (formatTime (Num (of_nat s))) = Num (of_nat s)"
    using parse_formatTime [of "of_nat s"] by simp
  have b: "formatTime (Num x) = formatTime (Num (of_int \<lfloor>x\<rfloor>))" if "0 \<le> x"
  proof -
    have "0 \<le> (of_int \<lfloor>x\<rfloor> :: real)" using that by simp
    then show ?thesis
      using formatTime_nonneg [OF that] formatTime_nonneg [of "of_int \<lfloor>x\<rfloor>"] by simp
  qed
  have c: "formatTime (Num x) =
        padStart2 (toString_int \<lfloor>x / 60\<rfloor>) @ '':'' @ padStart2 (toString_int \<lfloor>js_rem x 60\<rfloor>)"
    by (simp add: Let_def)
  from a b c parse_formatTime [of x] show ?thesis by blast
qed

text \<open>The round trip at 7325 seconds (122 minutes) and the flooring at 125.7 seconds.\<close>

theorem formatTime_parse_roundtrip_witness:
  "parseTimeToSeconds (formatTime (Num 7325)) = Num 7325 \<and>
   formatTime (Num 7325) = ''122:05'' \<and>
   formatTime (Num 125.7) = formatTime (Num 125) \<and>
   formatTime (Num 125.7) = ''02:05''"
proof -
  have v: "formatTime (Num 7325) = ''122:05''" "formatTime (Num 125) = ''02:05''"
    by (simp_all add: js_rem_def toString_int_def padStart2_def digit_char_def toString_nat.simps)
  have "(0::real) \<le> 125.7" by simp
  with formatTime_parse_roundtrip [of 7325 "125.7"] v show ?thesis by simp
qed

section \<open>Properties of the segment planner\<close>

declare plan.simps [simp del] POST_loop.simps [simp del]

lemma plan_length_iff: "i < length (plan D t) \<longleftrightarrow> t + 120 * real i < D"
proof (induction i arbitrary: t)
  case 0
  show ?case by (simp add: plan.simps [of D t])
next
  case (Suc i)
  show ?case
  proof (cases "t < D")
    case True
    then show ?thesis
      using Suc [of "t + 120"] by (simp add: plan.simps [of D t] CHUNK_DURATION_def algebra_simps)
  next
    case False
    then have "\<not> t + 120 * real (Suc i) < D" by simp
    with False show ?thesis by (simp add: plan.simps [of D t])
  qed
qed

lemma plan_nth: "i < length (plan D t) \<Longrightarrow> plan D t ! i = window_at D (t + 120 * real i)"
proof (induction i arbitrary: t)
  case 0
  then show ?case by (simp add: plan.simps [of D t] split: if_splits)
next
  case (Suc i)
  then have lt: "t < D" by (simp add: plan.simps [of D t] split: if_splits)
  with Suc.prems have "i < length (plan D (t + 120))"
    by (simp add: plan.simps [of D t] CHUNK_DURATION_def)
  from Suc.IH [OF this] lt show ?case
    by (simp add: plan.simps [of D t] CHUNK_DURATION_def algebra_simps)
qed

lemma window_at_start: "w_start (window_at D t) = max 0 (t - 60)"
  by (simp add: window_at_def CHUNK_OVERLAP_def Let_def)

lemma window_at_end:
  "w_start (window_at D t) + w_duration (window_at D t) = min (max 0 (t - 60) + 180) D"
  by (simp add: window_at_def CHUNK_OVERLAP_def CHUNK_DURATION_def Let_def min_def)

lemma plan_facts:
  assumes "0 < D"
  shows "plan D 0 \<noteq> []"
    and "\<forall>i. i < length (plan D 0) \<longrightarrow> w_start (plan D 0 ! i) = max 0 (120 * real i - 60)"
    and "\<forall>i. Suc i < length (plan D 0) \<longrightarrow>
           w_start (plan D 0 ! Suc i) = w_start (plan D 0 ! i) + (if i = 0 then 60 else 120)"
    and "w_start (last (plan D 0)) + w_duration (last (plan D 0)) = D"
    and "\<forall>x. 0 \<le> x \<and> x < D \<longrightarrow>
           (\<exists>w \<in> set (plan D 0). w_start w \<le> x \<and> x < w_start w + w_duration w)"
proof -
  let ?ws = "plan D 0"
  have len: "i < length ?ws \<longleftrightarrow> 120 * real i < D" for i
    using plan_length_iff [of i D 0] by simp
  have nth: "?ws ! i = window_at D (120 * real i)" if "i < length ?ws" for i
    using plan_nth [OF that] by simp
  from assms len [of 0] show ne: "?ws \<noteq> []" by auto
  show starts: "\<forall>i. i < length ?ws \<longrightarrow> w_start (?ws ! i) = max 0 (120 * real i - 60)"
    by (simp add: nth window_at_start)
  show "\<forall>i. Suc i < length ?ws \<longrightarrow>
           w_start (?ws ! Suc i) = w_start (?ws ! i) + (if i = 0 then 60 else 120)"
  proof (intro allI impI)
    fix i assume a: "Suc i < length ?ws"
    then have b: "i < length ?ws" by simp
    show "w_start (?ws ! Suc i) = w_start (?ws ! i) + (if i = 0 then 60 else 120)"
      using starts a b by (cases i) (simp_all add: max_def)
  qed
  show "w_start (last ?ws) + w_duration (last ?ws) = D"
  proof -
    let ?n = "length ?ws - 1"
    have n: "?n < length ?ws" using ne by simp
    have l: "last ?ws = window_at D (120 * real ?n)"
      using ne nth [OF n] by (simp add: last_conv_nth)
    have lo: "120 * real ?n < D" using n len by blast
    have "\<not> Suc ?n < length ?ws" by simp
    then have hi: "D \<le> 120 * real (Suc ?n)" using len [of "Suc ?n"] by linarith
    then have "D \<le> max 0 (120 * real ?n - 60) + 180" by simp
    then show ?thesis by (simp add: l window_at_end)
  qed
  show "\<forall>x. 0 \<le> x \<and> x < D \<longrightarrow>
           (\<exists>w \<in> set ?ws. w_start w \<le> x \<and> x < w_start w + w_duration w)"
  proof (intro allI impI)
    fix x :: real assume x: "0 \<le> x \<and> x < D"
    define k where "k = nat \<lfloor>x / 120\<rfloor>"
    have k0: "0 \<le> \<lfloor>x / 120\<rfloor>" using x by simp
    then have rk: "real k = of_int \<lfloor>x / 120\<rfloor>" by (simp add: k_def)
    have "real_of_int \<lfloor>x / 120\<rfloor> \<le> x / 120" "x / 120 < real_of_int \<lfloor>x / 120\<rfloor> + 1"
      by linarith+
    then have lo: "120 * real k \<le> x" and hi: "x < 120 * real k + 120"
      unfolding rk by linarith+
    have kl: "k < length ?ws" using len [of k] lo x by simp
    have "w_start (?ws ! k) \<le> x" using lo x by (simp add: nth [OF kl] window_at_start)
    moreover have "x < w_start (?ws ! k) + w_duration (?ws ! k)"
      using hi x by (simp add: nth [OF kl] window_at_end)
    ultimately show "\<exists>w \<in> set ?ws. w_start w \<le> x \<and> x < w_start w + w_duration w"
      using kl nth_mem by blast
  qed
qed

lemma plan_300:
  "plan 300 0 = [\<lparr>w_start = 0, w_duration = 180\<rparr>, \<lparr>w_start = 60, w_duration = 180\<rparr>,
                 \<lparr>w_start = 180, w_duration = 120\<rparr>]"
  by (simp add: plan.simps window_at_def CHUNK_DURATION_def CHUNK_OVERLAP_def)

text \<open>
  Claim C1. For a total duration \<open>D > 0\<close> and a run that starts at 0 (window length 120,
  overlap 60), the loop plans at least one window; window \<open>i\<close> starts at
  \<open>max 0 (120 i - 60)\<close>, so each start is the one before plus exactly 120, except the
  second, which is the first plus 60 because the first start is clamped at 0; the last
  window ends at \<open>D\<close>; and every point of \<open>[0, D)\<close> lies in some window
  \<open>[start, start + duration)\<close>.
\<close>

theorem plan_covers_duration:
  assumes "0 < D"
  shows "plan D 0 \<noteq> [] \<and>
    (\<forall>i. i < length (plan D 0) \<longrightarrow> w_start (plan D 0 ! i) = max 0 (120 * real i - 60)) \<and>
    (\<forall>i. Suc i < length (plan D 0) \<longrightarrow>
         w_start (plan D 0 ! i) < w_start (plan D 0 ! Suc i) \<and>
         w_start (plan D 0 ! Suc i) = w_start (plan D 0 ! i) + (if i = 0 then 60 else 120)) \<and>
    w_start (last (plan D 0)) + w_duration (last (plan D 0)) = D \<and>
    (\<forall>x. 0 \<le> x \<and> x < D \<longrightarrow>
         (\<exists>w \<in> set (plan D 0). w_start w \<le> x \<and> x < w_start w + w_duration w))"
proof -
  note f = plan_facts [OF assms]
  have inc: "\<forall>i. Suc i < length (plan D 0) \<longrightarrow>
         w_start (plan D 0 ! i) < w_start (plan D 0 ! Suc i) \<and>
         w_start (plan D 0 ! Suc i) = w_start (plan D 0 ! i) + (if i = 0 then 60 else 120)"
  proof (intro allI impI)
    fix i assume "Suc i < length (plan D 0)"
    with f(3) have e: "w_start (plan D 0 ! Suc i) = w_start (plan D 0 ! i) + (if i = 0 then 60 else 120)"
      by blast
    have "w_start (plan D 0 ! i) < w_start (plan D 0 ! i) + (if i = 0 then 60 else 120)"
      by simp
    with e show "w_start (plan D 0 ! i) < w_start (plan D 0 ! Suc i) \<and>
         w_start (plan D 0 ! Suc i) = w_start (plan D 0 ! i) + (if i = 0 then 60 else 120)"
      by simp
  qed
  from f(1) f(2) inc f(4) f(5) show ?thesis by blast
qed

text \<open>The plan for 300 seconds: three windows, the last ending at 300, and 299.5 covered.\<close>

theorem plan_covers_duration_witness:
  "(0::real) < 300 \<and>
   plan 300 0 = [\<lparr>w_start = 0, w_duration = 180\<rparr>, \<lparr>w_start = 60, w_duration = 180\<rparr>,
                 \<lparr>w_start = 180, w_duration = 120\<rparr>] \<and>
   w_start (last (plan 300 0)) + w_duration (last (plan 300 0)) = 300 \<and>
   w_start (plan 300 0 ! Suc 0) = w_start (plan 300 0 ! 0) + 60 \<and>
   w_start (plan 300 0 ! Suc (Suc 0)) = w_start (plan 300 0 ! Suc 0) + 120 \<and>
   (\<exists>w \<in> set (plan 300 0). w_start w \<le> 299.5 \<and> 299.5 < w_start w + w_duration w)"
proof -
  have h: "(0::real) < 300" by simp
  have l: "length (plan 300 0) = 3" by (simp add: plan_300)
  note t = plan_covers_duration [OF h]
  from t have a: "w_start (last (plan 300 0)) + w_duration (last (plan 300 0)) = 300" by blast
  from t l have b: "w_start (plan 300 0 ! Suc 0) = w_start (plan 300 0 ! 0) + 60" by simp
  from t have "Suc (Suc 0) < length (plan 300 0) \<longrightarrow>
      w_start (plan 300 0 ! Suc (Suc 0)) = w_start (plan 300 0 ! Suc 0) + (if Suc 0 = 0 then 60 else 120)"
    by blast
  with l have c: "w_start (plan 300 0 ! Suc (Suc 0)) = w_start (plan 300 0 ! Suc 0) + 120" by simp
  from t have "(0::real) \<le> 299.5 \<and> (299.5::real) < 300 \<longrightarrow>
      (\<exists>w \<in> set (plan 300 0). w_start w \<le> 299.5 \<and> 299.5 < w_start w + w_duration w)"
    by blast
  then have d: "\<exists>w \<in> set (plan 300 0). w_start w \<le> 299.5 \<and> 299.5 < w_start w + w_duration w"
    by simp
  from h plan_300 a b c d show ?thesis by blast
qed

section \<open>Properties of the segment processor\<close>








text \<open>
  Claim C4. When the attempt on a window throws, \<open>processChunk\<close> looks only at the
  message: with \<^verbatim>\<open>SAFETY\<close> or \<^verbatim>\<open>429\<close> in it the error is not passed on and the result is
  exactly one entry, stamped with the formatted window start, spoken by \<^verbatim>\<open>System\<close>, whose
  text is the safety notice or the rate-limit notice; every other error (also one without
  a message) is rethrown unchanged. The caller sees the difference: a contained error
  gives the record of a returned transcript (no \<open>retryAfter\<close>), a rethrown one the
  error record with its \<open>retryAfter\<close>.
\<close>

theorem processChunk_contains_soft_failures:
  "(message_includes err ''SAFETY'' \<or> message_includes err ''429'' \<longrightarrow>
      processChunk s d (Inl err) =
        Inr [\<lparr>timestamp = formatTime (Num s), speaker = ''System'',
              text = (if message_includes err ''SAFETY'' then safety_message else rate_limit_message)\<rparr>] \<and>
      (\<exists>r. records_of (process_window D \<lparr>w_start = s, w_duration = d\<rparr> (Inl err)) = [r] \<and>
           entries r = [synthetic_entry s
              (if message_includes err ''SAFETY'' then safety_message else rate_limit_message)] \<and>
           status r = StatusError \<and> retryAfter r = None)) \<and>
   (\<not> (message_includes err ''SAFETY'' \<or> message_includes err ''429'') \<longrightarrow>
      processChunk s d (Inl err) = Inl err \<and>
      records_of (process_window D \<lparr>w_start = s, w_duration = d\<rparr> (Inl err)) =
        [errorData D \<lparr>w_start = s, w_duration = d\<rparr> err])"
proof (intro conjI impI)
  assume c: "message_includes err ''SAFETY'' \<or> message_includes err ''429''"
  let ?e = "synthetic_entry s (if message_includes err ''SAFETY'' then safety_message else rate_limit_message)"
  from c have p: "processChunk s d (Inl err) = Inr [?e]"
    by (simp add: processChunk_def)
  then show "processChunk s d (Inl err) =
        Inr [\<lparr>timestamp = formatTime (Num s), speaker = ''System'',
              text = (if message_includes err ''SAFETY'' then safety_message else rate_limit_message)\<rparr>]"
    by (simp add: synthetic_entry_def)
  have f: "first_is_System [?e]" by (simp add: first_is_System_def synthetic_entry_def)
  have "records_of (process_window D \<lparr>w_start = s, w_duration = d\<rparr> (Inl err)) =
          [chunkData D \<lparr>w_start = s, w_duration = d\<rparr> [?e]]"
    by (simp add: process_window_def p)
  moreover have "entries (chunkData D \<lparr>w_start = s, w_duration = d\<rparr> [?e]) = [?e] \<and>
      status (chunkData D \<lparr>w_start = s, w_duration = d\<rparr> [?e]) = StatusError \<and>
      retryAfter (chunkData D \<lparr>w_start = s, w_duration = d\<rparr> [?e]) = None"
    using f by (simp add: chunkData_def)
  ultimately show "\<exists>r. records_of (process_window D \<lparr>w_start = s, w_duration = d\<rparr> (Inl err)) = [r] \<and>
           entries r = [?e] \<and> status r = StatusError \<and> retryAfter r = None"
    by blast
next
  assume n: "\<not> (message_includes err ''SAFETY'' \<or> message_includes err ''429'')"
  then show p: "processChunk s d (Inl err) = Inl err"
    by (simp add: processChunk_def)
  then show "records_of (process_window D \<lparr>w_start = s, w_duration = d\<rparr> (Inl err)) =
        [errorData D \<lparr>w_start = s, w_duration = d\<rparr> err]"
    by (simp add: process_window_def)
qed

text \<open>
  A quota error is contained as one System entry at 03:00; a failed upload is rethrown.
\<close>

theorem processChunk_contains_soft_failures_witness:
  "processChunk 180 120 (Inl \<lparr>message = Some ''[429 Too Many Requests] quota''\<rparr>) =
     Inr [\<lparr>timestamp = ''03:00'', speaker = ''System'', text = rate_limit_message\<rparr>] \<and>
   processChunk 180 120 (Inl \<lparr>message = Some ''blocked: SAFETY''\<rparr>) =
     Inr [\<lparr>timestamp = ''03:00'', speaker = ''System'', text = safety_message\<rparr>] \<and>
   processChunk 180 120 (Inl \<lparr>message = Some ''Chunk processing failed''\<rparr>) =
     Inl \<lparr>message = Some ''Chunk processing failed''\<rparr> \<and>
   processChunk 180 120 (Inl \<lparr>message = None\<rparr>) = Inl \<lparr>message = None\<rparr>"
proof -
  have f: "formatTime (Num 180) = ''03:00''"
    by (simp add: js_rem_def toString_int_def padStart2_def digit_char_def toString_nat.simps)
  have a: "message_includes \<lparr>message = Some ''[429 Too Many Requests] quota''\<rparr> ''429''"
    "\<not> message_includes \<lparr>message = Some ''[429 Too Many Requests] quota''\<rparr> ''SAFETY''"
    "message_includes \<lparr>message = Some ''blocked: SAFETY''\<rparr> ''SAFETY''"
    "\<not> message_includes \<lparr>message = Some ''Chunk processing failed''\<rparr> ''SAFETY''"
    "\<not> message_includes \<lparr>message = Some ''Chunk processing failed''\<rparr> ''429''"
    "\<not> message_includes \<lparr>message = None\<rparr> ''SAFETY''"
    "\<not> message_includes \<lparr>message = None\<rparr> ''429''"
    by (simp_all add: message_includes_def)
  show ?thesis
    using processChunk_contains_soft_failures [of "\<lparr>message = Some ''[429 Too Many Requests] quota''\<rparr>" 180 120]
      processChunk_contains_soft_failures [of "\<lparr>message = Some ''blocked: SAFETY''\<rparr>" 180 120]
      processChunk_contains_soft_failures [of "\<lparr>message = Some ''Chunk processing failed''\<rparr>" 180 120]
      processChunk_contains_soft_failures [of "\<lparr>message = None\<rparr>" 180 120]
    by (simp only: a f simp_thms if_True if_False)
qed

section \<open>Properties of the orchestrator\<close>


lemma process_window_shape:
  "process_window D w a =
     (case processChunk (w_start w) (w_duration w) a of
        Inr t \<Rightarrow> [Enqueue (chunkData D w t), Delay (if first_is_System t then 10000 else 3000)]
      | Inl err \<Rightarrow> [Enqueue (errorData D w err), Delay (if isRateLimit err then 15000 else 5000)])"
  by (simp add: process_window_def)



lemma first_is_System_iff: "first_is_System es \<longleftrightarrow> es \<noteq> [] \<and> speaker (hd es) = ''System''"
  by (cases es) (simp_all add: first_is_System_def)

text \<open>
  Claim C5, as the code has it. When \<open>processChunk\<close> returns entries, the record for
  the window carries them, and its status is \<open>error\<close> exactly when the list is not empty
  and its first entry's speaker is \<^verbatim>\<open>System\<close>. So the synthetic placeholder gives
  \<open>error\<close>; the empty list and every list whose first speaker is not \<^verbatim>\<open>System\<close> give
  \<open>success\<close>, whatever the later entries say.
\<close>

theorem status_error_iff_first_speaker_System:
  assumes "processChunk (w_start w) (w_duration w) attempt = Inr es"
  shows "\<exists>r ms. process_window D w attempt = [Enqueue r, Delay ms] \<and> entries r = es \<and>
           (status r = StatusError \<longleftrightarrow> es \<noteq> [] \<and> speaker (hd es) = ''System'') \<and>
           (status r = StatusSuccess \<longleftrightarrow> es = [] \<or> speaker (hd es) \<noteq> ''System'') \<and>
           (ms = (if status r = StatusError then 10000 else 3000))"
  using assms by (simp add: process_window_def chunkData_def first_is_System_iff)

lemma format_0: "formatTime (Num 0) = ''00:00''"
  by (simp add: js_rem_def toString_int_def padStart2_def digit_char_def toString_nat.simps)

lemma parse_0005: "parseTimeToSeconds ''00:00'' = Num 0" "parseTimeToSeconds ''00:05'' = Num 5"
  by (simp_all add: parseTimeToSeconds_def Number_def is_digit_def digits_val_def digit_val_def)

lemma format_5: "formatTime (Num 5) = ''00:05''"
  by (simp add: js_rem_def toString_int_def padStart2_def digit_char_def toString_nat.simps)

text \<open>
  The placeholder of a rate-limited window gives \<open>error\<close>; an empty answer gives
  \<open>success\<close>.
\<close>

theorem status_error_iff_first_speaker_System_witness:
  "processChunk 0 180 (Inl \<lparr>message = Some ''429''\<rparr>) =
     Inr [\<lparr>timestamp = ''00:00'', speaker = ''System'', text = rate_limit_message\<rparr>] \<and>
   (\<exists>r. process_window 300 \<lparr>w_start = 0, w_duration = 180\<rparr> (Inl \<lparr>message = Some ''429''\<rparr>) =
          [Enqueue r, Delay 10000] \<and> status r = StatusError) \<and>
   processChunk 0 180 (Inr []) = Inr [] \<and>
   (\<exists>r. process_window 300 \<lparr>w_start = 0, w_duration = 180\<rparr> (Inr []) =
          [Enqueue r, Delay 3000] \<and> status r = StatusSuccess)"
proof -
  let ?w = "\<lparr>w_start = 0, w_duration = 180\<rparr>"
  have a: "processChunk (w_start ?w) (w_duration ?w) (Inl \<lparr>message = Some ''429''\<rparr>) =
     Inr [\<lparr>timestamp = ''00:00'', speaker = ''System'', text = rate_limit_message\<rparr>]"
    by (simp add: processChunk_def message_includes_def synthetic_entry_def format_0 del: formatTime.simps)
  have b: "processChunk (w_start ?w) (w_duration ?w) (Inr []) = Inr []"
    by (simp add: processChunk_def)
  from status_error_iff_first_speaker_System [OF a, of 300]
  have c: "\<exists>r. process_window 300 ?w (Inl \<lparr>message = Some ''429''\<rparr>) =
          [Enqueue r, Delay 10000] \<and> status r = StatusError"
    by auto
  from status_error_iff_first_speaker_System [OF b, of 300]
  have d: "\<exists>r. process_window 300 ?w (Inr []) = [Enqueue r, Delay 3000] \<and> status r = StatusSuccess"
    by auto
  from a b c d show ?thesis by simp
qed

text \<open>
  Claim C5 as it is worded fails: a backend answer of two entries whose first speaker is
  labelled \<^verbatim>\<open>System\<close> comes back from \<open>processChunk\<close> unchanged, is not the
  one-entry placeholder, and yet its record has status \<open>error\<close>.
\<close>

theorem status_error_without_placeholder:
  "processChunk 0 180
     (Inr [\<lparr>timestamp = ''00:00'', speaker = ''System'', text = ''Recording started.''\<rparr>,
           \<lparr>timestamp = ''00:05'', speaker = ''Speaker 1'', text = ''Hello.''\<rparr>])
   = Inr [\<lparr>timestamp = ''00:00'', speaker = ''System'', text = ''Recording started.''\<rparr>,
          \<lparr>timestamp = ''00:05'', speaker = ''Speaker 1'', text = ''Hello.''\<rparr>] \<and>
   length [\<lparr>timestamp = ''00:00'', speaker = ''System'', text = ''Recording started.''\<rparr>,
           \<lparr>timestamp = ''00:05'', speaker = ''Speaker 1'', text = ''Hello.''\<rparr>] = 2 \<and>
   status (chunkData 300 \<lparr>w_start = 0, w_duration = 180\<rparr>
     [\<lparr>timestamp = ''00:00'', speaker = ''System'', text = ''Recording started.''\<rparr>,
      \<lparr>timestamp = ''00:05'', speaker = ''Speaker 1'', text = ''Hello.''\<rparr>]) = StatusError \<and>
   process_window 300 \<lparr>w_start = 0, w_duration = 180\<rparr>
     (Inr [\<lparr>timestamp = ''00:00'', speaker = ''System'', text = ''Recording started.''\<rparr>,
           \<lparr>timestamp = ''00:05'', speaker = ''Speaker 1'', text = ''Hello.''\<rparr>])
   = [Enqueue (chunkData 300 \<lparr>w_start = 0, w_duration = 180\<rparr>
        [\<lparr>timestamp = ''00:00'', speaker = ''System'', text = ''Recording started.''\<rparr>,
         \<lparr>timestamp = ''00:05'', speaker = ''Speaker 1'', text = ''Hello.''\<rparr>]),
      Delay 10000]"
proof -
  have p: "processChunk 0 180
     (Inr [\<lparr>timestamp = ''00:00'', speaker = ''System'', text = ''Recording started.''\<rparr>,
           \<lparr>timestamp = ''00:05'', speaker = ''Speaker 1'', text = ''Hello.''\<rparr>])
   = Inr [\<lparr>timestamp = ''00:00'', speaker = ''System'', text = ''Recording started.''\<rparr>,
          \<lparr>timestamp = ''00:05'', speaker = ''Speaker 1'', text = ''Hello.''\<rparr>]"
    by (simp add: processChunk_def adjust_entry_def parse_0005 format_0 format_5 del: formatTime.simps)
  then show ?thesis
    by (simp add: process_window_def chunkData_def first_is_System_def)
qed






lemma sample_stream:
  "map status (records_of (POST_stream sample_backend 300 0)) = [StatusSuccess, StatusError, StatusSuccess]"
  by (simp add: POST_stream_def POST_loop.simps process_window_def window_at_def processChunk_def
      sample_backend_def message_includes_def chunkData_def errorData_def first_is_System_def
      adjust_entry_def CHUNK_DURATION_def CHUNK_OVERLAP_def del: formatTime.simps)

section \<open>Properties of the transcript merger\<close>

lemma first_seen_filter: "filter Q (first_seen xs) = first_seen (filter Q xs)"
proof (induction xs)
  case Nil
  show ?case by simp
next
  case (Cons x xs)
  show ?case
  proof (cases "Q x")
    case True
    have "filter Q (filter (\<lambda>y. y \<noteq> x) (first_seen xs)) = filter (\<lambda>y. y \<noteq> x) (filter Q (first_seen xs))"
      by (simp add: conj_commute)
    with True Cons show ?thesis by simp
  next
    case False
    then have "filter Q (filter (\<lambda>y. y \<noteq> x) (first_seen xs)) = filter Q (first_seen xs)"
      by (auto intro: filter_cong)
    with False Cons show ?thesis by simp
  qed
qed

lemma set_first_seen: "set (first_seen xs) = set xs"
  by (induction xs) auto

lemma distinct_first_seen: "distinct (first_seen xs)"
  by (induction xs) simp_all

lemma first_seen_snoc:
  "first_seen (xs @ [l]) = (if l \<in> set xs then first_seen xs else first_seen xs @ [l])"
  by (induction xs) auto

lemma foldl_foldl_concat: "foldl (foldl f) s xss = foldl f s (concat xss)"
  by (induction xss arbitrary: s) simp_all

lemma normalize_entry_step:
  "normalize_entry (zip ds (map (\<lambda>i. ''Speaker '' @ toString_nat (Suc i)) [0..<length ds]), Suc (length ds)) e =
     (if speaker e \<in> set ds
      then (zip ds (map (\<lambda>i. ''Speaker '' @ toString_nat (Suc i)) [0..<length ds]), Suc (length ds))
      else (zip (ds @ [speaker e])
              (map (\<lambda>i. ''Speaker '' @ toString_nat (Suc i)) [0..<length (ds @ [speaker e])]),
            Suc (length (ds @ [speaker e]))))"
  using map_of_zip_is_None [of ds "map (\<lambda>i. ''Speaker '' @ toString_nat (Suc i)) [0..<length ds]" "speaker e"]
  by (simp add: normalize_entry_def)

lemma normalize_entries_first_seen:
  "foldl normalize_entry ([], Suc 0) es =
     (zip (first_seen (map speaker es))
          (map (\<lambda>i. ''Speaker '' @ toString_nat (Suc i)) [0..<length (first_seen (map speaker es))]),
      Suc (length (first_seen (map speaker es))))"
proof (induction es rule: rev_induct)
  case Nil
  show ?case by simp
next
  case (snoc e es)
  have "foldl normalize_entry ([], Suc 0) (es @ [e]) =
        normalize_entry (foldl normalize_entry ([], Suc 0) es) e"
    by simp
  also have "\<dots> = (zip (first_seen (map speaker (es @ [e])))
          (map (\<lambda>i. ''Speaker '' @ toString_nat (Suc i)) [0..<length (first_seen (map speaker (es @ [e])))]),
      Suc (length (first_seen (map speaker (es @ [e])))))"
    unfolding snoc normalize_entry_step
    by (simp add: first_seen_snoc set_first_seen del: set_map)
  finally show ?case .
qed

text \<open>
  Claim C9. The speaker map built by \<open>mergeTranscripts\<close> depends only on the raw
  labels in first-seen order over all windows taken in order: it lists the distinct
  labels in that order, the \<open>i\<close>-th of them (counting from 1) paired with
  \<^verbatim>\<open>Speaker i\<close>, and the counter ends one past their number. Looking up the \<open>i\<close>-th
  distinct label gives \<^verbatim>\<open>Speaker i\<close>; a label that never occurs is not in the map.
\<close>

theorem speakers_numbered_in_first_seen_order:
  "normalize_speakers chunks =
     (zip (first_seen (map speaker (concat chunks)))
          (map (\<lambda>i. ''Speaker '' @ toString_nat (Suc i))
               [0..<length (first_seen (map speaker (concat chunks)))]),
      Suc (length (first_seen (map speaker (concat chunks))))) \<and>
   (\<forall>i < length (first_seen (map speaker (concat chunks))).
      map_of (fst (normalize_speakers chunks)) (first_seen (map speaker (concat chunks)) ! i) =
        Some (''Speaker '' @ toString_nat (Suc i))) \<and>
   (\<forall>l. l \<notin> set (map speaker (concat chunks)) \<longrightarrow> map_of (fst (normalize_speakers chunks)) l = None)"
proof -
  let ?ds = "first_seen (map speaker (concat chunks))"
  let ?f = "\<lambda>i. ''Speaker '' @ toString_nat (Suc i)"
  have n: "normalize_speakers chunks = (zip ?ds (map ?f [0..<length ?ds]), Suc (length ?ds))"
    unfolding normalize_speakers_def foldl_foldl_concat One_nat_def
    by (rule normalize_entries_first_seen)
  have a: "map_of (fst (normalize_speakers chunks)) (?ds ! i) = Some (?f i)" if "i < length ?ds" for i
  proof -
    have "map_of (zip ?ds (map ?f [0..<length ?ds])) (?ds ! i) = Some (map ?f [0..<length ?ds] ! i)"
      using that by (intro map_of_zip_nth) (simp_all add: distinct_first_seen)
    with that show ?thesis by (simp add: n)
  qed
  have b: "map_of (fst (normalize_speakers chunks)) l = None" if "l \<notin> set (map speaker (concat chunks))" for l
    using that map_of_zip_is_None [of ?ds "map ?f [0..<length ?ds]" l]
    by (simp add: n set_first_seen del: set_map set_concat)
  from n a b show ?thesis by blast
qed

lemma speakers_example:
  "normalize_speakers
     [[\<lparr>timestamp = ''00:00'', speaker = ''Alice'', text = ''a''\<rparr>,
       \<lparr>timestamp = ''00:10'', speaker = ''Bob'', text = ''b''\<rparr>],
      [\<lparr>timestamp = ''00:00'', speaker = ''Alice'', text = ''c''\<rparr>]]
   = ([(''Alice'', ''Speaker 1''), (''Bob'', ''Speaker 2'')], 3)"
  by (simp add: normalize_speakers_def normalize_entry_def toString_nat.simps digit_char_def)

text \<open>Alice, Bob, Alice over two windows: Alice is Speaker 1 and Bob is Speaker 2.\<close>

theorem speakers_numbered_in_first_seen_order_witness:
  "first_seen (map speaker (concat
     [[\<lparr>timestamp = ''00:00'', speaker = ''Alice'', text = ''a''\<rparr>,
       \<lparr>timestamp = ''00:10'', speaker = ''Bob'', text = ''b''\<rparr>],
      [\<lparr>timestamp = ''00:00'', speaker = ''Alice'', text = ''c''\<rparr>]])) = [''Alice'', ''Bob''] \<and>
   normalize_speakers
     [[\<lparr>timestamp = ''00:00'', speaker = ''Alice'', text = ''a''\<rparr>,
       \<lparr>timestamp = ''00:10'', speaker = ''Bob'', text = ''b''\<rparr>],
      [\<lparr>timestamp = ''00:00'', speaker = ''Alice'', text = ''c''\<rparr>]]
   = ([(''Alice'', ''Speaker 1''), (''Bob'', ''Speaker 2'')], 3) \<and>
   map_of (fst (normalize_speakers
     [[\<lparr>timestamp = ''00:00'', speaker = ''Alice'', text = ''a''\<rparr>,
       \<lparr>timestamp = ''00:10'', speaker = ''Bob'', text = ''b''\<rparr>],
      [\<lparr>timestamp = ''00:00'', speaker = ''Alice'', text = ''c''\<rparr>]])) ''Bob'' = Some ''Speaker 2'' \<and>
   map_of (fst (normalize_speakers
     [[\<lparr>timestamp = ''00:00'', speaker = ''Alice'', text = ''a''\<rparr>,
       \<lparr>timestamp = ''00:10'', speaker = ''Bob'', text = ''b''\<rparr>],
      [\<lparr>timestamp = ''00:00'', speaker = ''Alice'', text = ''c''\<rparr>]])) ''Carol'' = None"
proof -
  let ?chunks = "[[\<lparr>timestamp = ''00:00'', speaker = ''Alice'', text = ''a''\<rparr>,
       \<lparr>timestamp = ''00:10'', speaker = ''Bob'', text = ''b''\<rparr>],
      [\<lparr>timestamp = ''00:00'', speaker = ''Alice'', text = ''c''\<rparr>]]"
  have fs: "first_seen (map speaker (concat ?chunks)) = [''Alice'', ''Bob'']" by simp
  note t = speakers_numbered_in_first_seen_order [of ?chunks]
  from t have n: "normalize_speakers ?chunks =
     (zip (first_seen (map speaker (concat ?chunks)))
          (map (\<lambda>i. ''Speaker '' @ toString_nat (Suc i))
               [0..<length (first_seen (map speaker (concat ?chunks)))]),
      Suc (length (first_seen (map speaker (concat ?chunks)))))"
    by blast
  have n': "normalize_speakers ?chunks = ([(''Alice'', ''Speaker 1''), (''Bob'', ''Speaker 2'')], 3)"
    unfolding n fs by (simp add: toString_nat.simps digit_char_def upt_rec)
  from t have "\<forall>l. l \<notin> set (map speaker (concat ?chunks)) \<longrightarrow> map_of (fst (normalize_speakers ?chunks)) l = None"
    by blast
  then have "''Carol'' \<notin> set (map speaker (concat ?chunks)) \<longrightarrow> map_of (fst (normalize_speakers ?chunks)) ''Carol'' = None"
    by blast
  then have c: "map_of (fst (normalize_speakers ?chunks)) ''Carol'' = None" by simp
  have b: "map_of (fst (normalize_speakers ?chunks)) ''Bob'' = Some ''Speaker 2''"
    by (simp add: n')
  from fs n' b c show ?thesis by blast
qed














































section \<open>Properties of the client\<close>











end
